theory Spec2Isabelle
  imports Complex_Main "HOL-Library.Log_Nat"
begin

section \<open>The DMG background generator\<close>

text \<open>
  The program is the single procedure \<^verbatim>\<open>create_dmg_background\<close> of
  \<^verbatim>\<open>create_dmg_background.py\<close>: it allocates a 500 by 300 RGB image, paints a
  gradient row by row, resolves two fonts through fallback chains, draws a shadowed title
  and subtitle, creates the output directory, saves the image as PNG and prints one line.

  The imaging library, the font files and the file system are outside the program. They
  are modelled as a host: a record of what each library call answers and of the state
  the calls change. The image is the list of drawing calls made on it, in order.
\<close>

subsection \<open>Python numbers\<close>

text \<open>
  The gradient scalar is computed in floating point: \<^verbatim>\<open>15 * y / height\<close> is Python's
  true division of two integers, \<^verbatim>\<open>240 + ...\<close> adds an integer to a float, and
  \<^verbatim>\<open>int(...)\<close> truncates the float toward zero. A float is an IEEE 754 binary64 number;
  both operations return the exact result rounded to the nearest number with a 53-bit
  significand, ties to the even significand. Floats are modelled by the rationals they
  denote. Overflow and subnormal numbers are left out: every value here is below 256 and,
  unless zero, at least 1/20.
\<close>

definition expo :: "rat \<Rightarrow> int" where
  \<comment> \<open>the binary exponent of a non-zero \<open>x\<close>: \<open>2 powi expo x \<le> \<bar>x\<bar> < 2 powi (expo x + 1)\<close>\<close>
  "expo x = (let (a, b) = quotient_of \<bar>x\<bar>; d = bitlen a - bitlen b
             in if 2 powi d \<le> \<bar>x\<bar> then d else d - 1)"

definition round_half_even :: "rat \<Rightarrow> int" where
  "round_half_even q = (let f = \<lfloor>q\<rfloor>; r = q - of_int f
     in if r < 1 / 2 then f else if 1 / 2 < r then f + 1 else if even f then f else f + 1)"

definition float_round :: "rat \<Rightarrow> rat" where
  \<comment> \<open>the nearest binary64 number: a multiple of the unit in the last place \<open>u\<close>\<close>
  "float_round x = (if x = 0 then 0
     else let u = 2 powi (expo x - 52) in of_int (round_half_even (x / u)) * u)"

definition py_truediv :: "int \<Rightarrow> int \<Rightarrow> rat" where
  \<comment> \<open>\<^verbatim>\<open>a / b\<close> on integers, for a divisor that is not zero\<close>
  "py_truediv a b = float_round (of_int a / of_int b)"

definition py_float_add :: "rat \<Rightarrow> rat \<Rightarrow> rat" where
  "py_float_add a b = float_round (a + b)"

definition py_int :: "rat \<Rightarrow> int" where
  \<comment> \<open>\<^verbatim>\<open>int(x)\<close> on a float: truncation toward zero\<close>
  "py_int x = (if 0 \<le> x then \<lfloor>x\<rfloor> else \<lceil>x\<rceil>)"

subsection \<open>The image and its drawing calls\<close>

type_synonym point = "int \<times> int"
type_synonym color = "int \<times> int \<times> int"
type_synonym bbox = "int \<times> int \<times> int \<times> int"

datatype font = FreeTypeFont string nat | DefaultFont

datatype draw_op =
  Line point point color
| Text point string color font

record image =
  mode :: string
  img_size :: "int \<times> int"
  background :: string
  ops :: "draw_op list"

definition Image_new :: "string \<Rightarrow> int \<times> int \<Rightarrow> string \<Rightarrow> image" where
  "Image_new m sz c = \<lparr>mode = m, img_size = sz, background = c, ops = []\<rparr>"

definition draw_line :: "point \<Rightarrow> point \<Rightarrow> color \<Rightarrow> image \<Rightarrow> image" where
  "draw_line p q fill img = img\<lparr>ops := ops img @ [Line p q fill]\<rparr>"

definition draw_text :: "point \<Rightarrow> string \<Rightarrow> color \<Rightarrow> font \<Rightarrow> image \<Rightarrow> image" where
  "draw_text p s fill f img = img\<lparr>ops := ops img @ [Text p s fill f]\<rparr>"

subsection \<open>The gradient pass\<close>

definition width :: int where
  "width = 500"

definition height :: int where
  "height = 300"

definition color_value :: "int \<Rightarrow> int" where
  "color_value y = py_int (py_float_add 240 (py_truediv (15 * y) height))"

definition gradient_color :: "int \<Rightarrow> color" where
  "gradient_color y = (color_value y, color_value y + 10, color_value y + 20)"

fun gradient_rows :: "int list \<Rightarrow> image \<Rightarrow> image" where
  "gradient_rows [] img = img"
| "gradient_rows (y # ys) img =
     gradient_rows ys (draw_line (0, y) (width, y) (gradient_color y) img)"

definition gradient_pass :: "image \<Rightarrow> image" where
  \<comment> \<open>\<^verbatim>\<open>for y in range(height)\<close>\<close>
  "gradient_pass img = gradient_rows [0..height - 1] img"

text \<open>The specification's reading of the gradient, in exact arithmetic.\<close>

definition spec_t :: "int \<Rightarrow> int" where
  \<comment> \<open>the integer truncation of \<open>240 + 15 * y / 300\<close>\<close>
  "spec_t y = py_int (240 + 15 * of_int y / 300)"

definition paints_row :: "draw_op \<Rightarrow> int \<Rightarrow> color \<Rightarrow> bool" where
  \<comment> \<open>a horizontal line on row \<open>y\<close> that reaches from the first to the last column\<close>
  "paints_row d y c = (case d of
       Line (x0, y0) (x1, y1) fill \<Rightarrow> y0 = y \<and> y1 = y \<and> x0 \<le> 0 \<and> width - 1 \<le> x1 \<and> fill = c
     | Text _ _ _ _ \<Rightarrow> False)"

definition channel_8bit :: "int \<Rightarrow> bool" where
  "channel_8bit v = (0 \<le> v \<and> v \<le> 255)"

definition in_240_255 :: "int \<Rightarrow> bool" where
  "in_240_255 v = (240 \<le> v \<and> v \<le> 255)"

definition color_8bit :: "color \<Rightarrow> bool" where
  "color_8bit c = (case c of (r, g, b) \<Rightarrow> channel_8bit r \<and> channel_8bit g \<and> channel_8bit b)"

subsection \<open>The host: fonts, file system, console\<close>

text \<open>
  What the program asks of its host: whether a font file loads at a size, whether the
  built-in default font loads, what bounding box a font gives a string, and a file system
  and a console that it changes. \<open>font_calls\<close> and \<open>saved\<close> log the font loading calls and
  the file writes in the order they are made. One flag, \<open>writable\<close>, stands for every
  reason the operating system refuses to create a directory or write a file.
\<close>

datatype error =
  FontError
| FileExistsError
| FileNotFoundError
| IsADirectoryError
| PermissionError

datatype content = Encoded string image

datatype node = Dir | File content

datatype font_call = Truetype string nat | Load_default

record host =
  font_files :: "string \<Rightarrow> nat \<Rightarrow> bool"
  default_font :: bool
  text_bbox :: "font \<Rightarrow> string \<Rightarrow> bbox"
  files :: "string \<rightharpoonup> node"
  writable :: bool
  stdout :: "string list"
  font_calls :: "font_call list"
  saved :: "(string \<times> content) list"

type_synonym 'a io = "host \<Rightarrow> (error + 'a) \<times> host"

definition ImageFont_truetype :: "string \<Rightarrow> nat \<Rightarrow> font io" where
  "ImageFont_truetype path sz h =
     (if font_files h path sz then Inr (FreeTypeFont path sz) else Inl FontError,
      h\<lparr>font_calls := font_calls h @ [Truetype path sz]\<rparr>)"

definition ImageFont_load_default :: "font io" where
  "ImageFont_load_default h =
     (if default_font h then Inr DefaultFont else Inl FontError,
      h\<lparr>font_calls := font_calls h @ [Load_default]\<rparr>)"

definition draw_textbbox :: "host \<Rightarrow> point \<Rightarrow> string \<Rightarrow> font \<Rightarrow> bbox" where
  "draw_textbbox h xy s f =
     (case (xy, text_bbox h f s) of
        ((x, y), (l, t, r, b)) \<Rightarrow> (l + x, t + y, r + x, b + y))"

text \<open>
  \<^verbatim>\<open>os.path.dirname\<close>: the path up to its last slash, without the slashes that end it
  unless it is slashes only.
\<close>

definition os_path_dirname :: "string \<Rightarrow> string" where
  "os_path_dirname p =
     (let head = rev (dropWhile (\<lambda>c. c \<noteq> CHR ''/'') (rev p))
      in if head \<noteq> [] \<and> \<not> list_all (\<lambda>c. c = CHR ''/'') head
         then rev (dropWhile (\<lambda>c. c = CHR ''/'') (rev head)) else head)"

text \<open>
  \<^verbatim>\<open>os.makedirs\<close> creates the missing directories of a path from the outermost one
  inwards. \<open>ancestors\<close> lists the path's directories in that order, the path itself last.
\<close>

fun ancestors_from :: "string \<Rightarrow> string \<Rightarrow> string list" where
  "ancestors_from done [] = (if done = [] then [] else [done])"
| "ancestors_from done (c # cs) =
     (if c = CHR ''/'' \<and> done \<noteq> [] then done # ancestors_from (done @ [c]) cs
      else ancestors_from (done @ [c]) cs)"

definition ancestors :: "string \<Rightarrow> string list" where
  "ancestors p = ancestors_from [] p"

fun make_each :: "string list \<Rightarrow> bool \<Rightarrow> unit io" where
  "make_each [] exist_ok h = (Inr (), h)"
| "make_each (d # ds) exist_ok h =
     (case files h d of
        Some Dir \<Rightarrow>
          if ds = [] \<and> \<not> exist_ok then (Inl FileExistsError, h) else make_each ds exist_ok h
      | Some (File c) \<Rightarrow> (Inl FileExistsError, h)
      | None \<Rightarrow>
          if writable h then make_each ds exist_ok (h\<lparr>files := (files h)(d \<mapsto> Dir)\<rparr>)
          else (Inl PermissionError, h))"

definition os_makedirs :: "string \<Rightarrow> bool \<Rightarrow> unit io" where
  "os_makedirs name exist_ok h =
     (if name = [] then (Inl FileNotFoundError, h) else make_each (ancestors name) exist_ok h)"

definition image_save :: "image \<Rightarrow> string \<Rightarrow> string \<Rightarrow> unit io" where
  "image_save img fp fmt h =
     (if files h fp = Some Dir then (Inl IsADirectoryError, h)
      else if os_path_dirname fp \<noteq> [] \<and> files h (os_path_dirname fp) \<noteq> Some Dir
        then (Inl FileNotFoundError, h)
      else if \<not> writable h then (Inl PermissionError, h)
      else (Inr (), h\<lparr>files := (files h)(fp \<mapsto> File (Encoded fmt img)),
                       saved := saved h @ [(fp, Encoded fmt img)]\<rparr>))"

definition print :: "string \<Rightarrow> unit io" where
  "print s h = (Inr (), h\<lparr>stdout := stdout h @ [s]\<rparr>)"

subsection \<open>Font resolution\<close>

definition arial :: string where
  "arial = ''/System/Library/Fonts/Arial.ttf''"

definition helvetica :: string where
  "helvetica = ''/System/Library/Fonts/Helvetica.ttc''"

text \<open>
  Lines 24 to 31. A bare \<^verbatim>\<open>except:\<close> catches whatever the call in its \<^verbatim>\<open>try\<close>
  raises; the call in the last handler is not guarded.
\<close>

definition title_font :: "font io" where
  "title_font h =
     (case ImageFont_truetype arial 24 h of
        (Inr font, h1) \<Rightarrow> (Inr font, h1)
      | (Inl e1, h1) \<Rightarrow>
          (case ImageFont_truetype helvetica 24 h1 of
             (Inr font, h2) \<Rightarrow> (Inr font, h2)
           | (Inl e2, h2) \<Rightarrow> ImageFont_load_default h2))"

text \<open>Lines 48 to 51.\<close>

definition small_font :: "font io" where
  "small_font h =
     (case ImageFont_truetype arial 16 h of
        (Inr font, h1) \<Rightarrow> (Inr font, h1)
      | (Inl e1, h1) \<Rightarrow> ImageFont_load_default h1)"

subsection \<open>Title and subtitle\<close>

definition title :: string where
  "title = ''Autobuild''"

definition subtitle :: string where
  "subtitle = ''Drag to Applications folder''"

text \<open>Lines 35 to 40: the title's position from its bounding box.\<close>

definition title_xy :: "bbox \<Rightarrow> point" where
  "title_xy bbox =
     (case bbox of (b0, b1, b2, b3) \<Rightarrow>
        let text_width = b2 - b0;
            text_height = b3 - b1;
            x = (width - text_width) div 2;
            y = height div 2 - text_height - 10
        in (x, y))"

text \<open>Lines 53 to 56: the subtitle's position from its bounding box.\<close>

definition subtitle_xy :: "bbox \<Rightarrow> point" where
  "subtitle_xy bbox =
     (case bbox of (b0, b1, b2, b3) \<Rightarrow>
        let text_width = b2 - b0;
            x = (width - text_width) div 2;
            y = height div 2 + 10
        in (x, y))"

text \<open>Lines 43 and 44, 58 and 59: shadow, then foreground.\<close>

definition add_title :: "host \<Rightarrow> font \<Rightarrow> image \<Rightarrow> image" where
  "add_title h font img =
     (case title_xy (draw_textbbox h (0, 0) title font) of (x, y) \<Rightarrow>
        draw_text (x, y) title (50, 50, 50) font
          (draw_text (x + 2, y + 2) title (100, 100, 100) font img))"

definition add_subtitle :: "host \<Rightarrow> font \<Rightarrow> image \<Rightarrow> image" where
  "add_subtitle h small img =
     (case subtitle_xy (draw_textbbox h (0, 0) subtitle small) of (x, y) \<Rightarrow>
        draw_text (x, y) subtitle (80, 80, 80) small
          (draw_text (x + 1, y + 1) subtitle (120, 120, 120) small img))"

subsection \<open>The procedure\<close>

definition output_path :: string where
  "output_path = ''native/resources/dmg_background.png''"

definition create_dmg_background :: "unit io" where
  "create_dmg_background h =
     (let img = Image_new ''RGB'' (width, height) ''white'';
          img = gradient_pass img
      in case title_font h of
           (Inl e, h1) \<Rightarrow> (Inl e, h1)
         | (Inr font, h1) \<Rightarrow>
             (let img = add_title h1 font img
              in case small_font h1 of
                   (Inl e, h2) \<Rightarrow> (Inl e, h2)
                 | (Inr small, h2) \<Rightarrow>
                     (let img = add_subtitle h2 small img
                      in case os_makedirs (os_path_dirname output_path) True h2 of
                           (Inl e, h3) \<Rightarrow> (Inl e, h3)
                         | (Inr u, h3) \<Rightarrow>
                             (case image_save img output_path ''PNG'' h3 of
                                (Inl e, h4) \<Rightarrow> (Inl e, h4)
                              | (Inr u, h4) \<Rightarrow>
                                  print (''DMG background image created: '' @ output_path) h4))))"

subsection \<open>Notions used to state the properties\<close>

text \<open>The fonts the two chains resolve to on a host, when they do.\<close>

definition resolved_title_font :: "host \<Rightarrow> font option" where
  "resolved_title_font h =
     (if font_files h arial 24 then Some (FreeTypeFont arial 24)
      else if font_files h helvetica 24 then Some (FreeTypeFont helvetica 24)
      else if default_font h then Some DefaultFont else None)"

definition resolved_small_font :: "host \<Rightarrow> font option" where
  "resolved_small_font h =
     (if font_files h arial 16 then Some (FreeTypeFont arial 16)
      else if default_font h then Some DefaultFont else None)"

text \<open>The image the procedure has composed when it reaches the save, given both fonts.\<close>

definition composed :: "host \<Rightarrow> font \<Rightarrow> font \<Rightarrow> image" where
  "composed h font small =
     add_subtitle h small (add_title h font
       (gradient_pass (Image_new ''RGB'' (width, height) ''white'')))"

text \<open>Two hosts with the same font availability: the same files load and measure alike.\<close>

definition same_fonts :: "host \<Rightarrow> host \<Rightarrow> bool" where
  "same_fonts h k =
     (font_files h = font_files k \<and> default_font h = default_font k \<and> text_bbox h = text_bbox k)"

text \<open>A host with no system font at all, an empty working directory and an empty console.\<close>

definition bare_host :: host where
  "bare_host = \<lparr>font_files = (\<lambda>path sz. False), default_font = True,
     text_bbox = (\<lambda>f s. (0, 0, 6 * int (length s), 11)),
     files = Map.empty, writable = True, stdout = [], font_calls = [], saved = []\<rparr>"

text \<open>A host whose first system font measures every string 501 wide and 20 high.\<close>

definition wide_host :: host where
  "wide_host = \<lparr>font_files = (\<lambda>path sz. path = arial), default_font = True,
     text_bbox = (\<lambda>f s. (0, 0, 501, 20)),
     files = Map.empty, writable = True, stdout = [], font_calls = [], saved = []\<rparr>"

text \<open>The specification's centring: \<open>(500 - w) / 2\<close> rounded toward zero.\<close>

definition spec_centre :: "int \<Rightarrow> int" where
  "spec_centre w = py_int (of_int (500 - w) / 2)"

section \<open>Rounding to binary64\<close>

lemma bitlen_powi_bounds:
  assumes "0 < a"
  shows "(2::rat) powi (bitlen a - 1) \<le> of_int a" and "of_int a < (2::rat) powi (bitlen a)"
proof -
  from assms have b: "2 ^ nat (bitlen a - 1) \<le> a" "a < 2 ^ nat (bitlen a)"
    using bitlen_bounds [of a] by auto
  from assms have ge1: "1 \<le> bitlen a"
    using bitlen_eq_zero_iff [of a] bitlen_nonneg [of a] by linarith
  have "(of_int (2 ^ nat (bitlen a - 1)) :: rat) \<le> of_int a"
    using b(1) by (simp only: of_int_le_iff)
  then show "(2::rat) powi (bitlen a - 1) \<le> of_int a"
    using ge1 by (simp add: power_int_def)
  have "(of_int a :: rat) < of_int (2 ^ nat (bitlen a))"
    using b(2) by (simp only: of_int_less_iff)
  then show "of_int a < (2::rat) powi (bitlen a)"
    using ge1 by (simp add: power_int_def)
qed

lemma expo_bounds:
  assumes "0 < x"
  shows "2 powi (expo x) \<le> x" and "x < 2 powi (expo x + 1)"
proof -
  obtain a b where q: "quotient_of x = (a, b)" by (cases "quotient_of x")
  then have b: "0 < b" and x: "x = of_int a / of_int b"
    using quotient_of_denom_pos quotient_of_div by blast+
  from assms x b have a: "0 < a"
    by (simp add: zero_less_divide_iff)
  define d where "d = bitlen a - bitlen b"
  have e: "expo x = (if 2 powi d \<le> x then d else d - 1)"
    using assms q by (simp add: expo_def d_def)
  note A = bitlen_powi_bounds [OF a] and B = bitlen_powi_bounds [OF b]
  have bpos: "(0::rat) < of_int b" using b by simp
  have up: "x < 2 powi (d + 1)"
  proof -
    have "of_int a < (2::rat) powi (d + 1) * 2 powi (bitlen b - 1)"
      using A(2) by (simp add: d_def flip: power_int_add)
    also have "\<dots> \<le> 2 powi (d + 1) * of_int b"
      using B(1) by (simp add: mult_left_mono)
    finally show ?thesis using bpos by (simp add: x pos_divide_less_eq)
  qed
  have lo: "2 powi (d - 1) \<le> x"
  proof -
    have "(2::rat) powi (d - 1) * of_int b \<le> 2 powi (d - 1) * 2 powi (bitlen b)"
      using B(2) by (simp add: mult_left_mono)
    also have "\<dots> = 2 powi (bitlen a - 1)"
      by (simp add: d_def flip: power_int_add)
    also have "\<dots> \<le> of_int a" by (rule A(1))
    finally show ?thesis using bpos by (simp add: x pos_le_divide_eq)
  qed
  show "2 powi (expo x) \<le> x" using lo by (simp add: e)
  show "x < 2 powi (expo x + 1)" using up by (auto simp add: e not_le)
qed

lemma round_half_even_error: "\<bar>of_int (round_half_even q) - q\<bar> \<le> 1 / 2"
proof -
  define f where "f = \<lfloor>q\<rfloor>"
  have lo: "of_int f \<le> q" and hi: "q < of_int f + 1"
    unfolding f_def by linarith+
  consider "q - of_int f < 1 / 2" | "1 / 2 < q - of_int f" | "q - of_int f = 1 / 2"
    by linarith
  then show ?thesis
  proof cases
    case 1
    then have "round_half_even q = f" by (simp add: round_half_even_def f_def Let_def)
    with lo 1 show ?thesis by simp
  next
    case 2
    then have "round_half_even q = f + 1" by (simp add: round_half_even_def f_def Let_def)
    with hi 2 show ?thesis by simp
  next
    case 3
    then have "round_half_even q = f \<or> round_half_even q = f + 1"
      by (simp add: round_half_even_def f_def Let_def)
    with 3 show ?thesis by auto
  qed
qed

lemma round_half_even_of_int: "round_half_even (of_int n) = n"
  by (simp add: round_half_even_def)

text \<open>The relative error of one rounding is at most \<open>2\<^sup>-\<^sup>5\<^sup>3\<close>.\<close>

lemma float_round_error:
  assumes "0 < x"
  shows "\<bar>float_round x - x\<bar> \<le> x / 2 ^ 53"
proof -
  define u :: rat where "u = 2 powi (expo x - 52)"
  have upos: "0 < u" by (simp add: u_def)
  have fl: "float_round x = of_int (round_half_even (x / u)) * u"
    using assms by (simp add: float_round_def u_def Let_def)
  have "float_round x - x = (of_int (round_half_even (x / u)) - x / u) * u"
    using upos by (simp add: fl left_diff_distrib)
  then have "\<bar>float_round x - x\<bar> = \<bar>of_int (round_half_even (x / u)) - x / u\<bar> * u"
    using upos by (simp only: abs_mult abs_of_pos)
  also have "\<dots> \<le> (1 / 2) * u"
    using round_half_even_error [of "x / u"] upos by (intro mult_right_mono) simp_all
  also have "\<dots> = 2 powi (expo x) / 2 ^ 53"
    by (simp add: u_def power_int_diff)
  also have "\<dots> \<le> x / 2 ^ 53"
    using expo_bounds(1) [OF assms] by (simp add: divide_right_mono)
  finally show ?thesis .
qed

text \<open>Integers below \<open>2\<^sup>5\<^sup>3\<close> are binary64 numbers: rounding leaves them alone.\<close>

lemma float_round_of_int:
  assumes "0 \<le> n" and "n < 2 ^ 53"
  shows "float_round (of_int n) = of_int n"
proof (cases "n = 0")
  case True
  then show ?thesis by (simp add: float_round_def)
next
  case False
  with assms have pos: "(0::rat) < of_int n" by simp
  define e where "e = expo (of_int n)"
  have "(2::rat) powi e \<le> of_int n" using expo_bounds(1) [OF pos] by (simp add: e_def)
  also have "(of_int n :: rat) < of_int (2 ^ 53)" using assms(2) by (simp only: of_int_less_iff)
  finally have "(2::rat) powi e < 2 powi 53" by simp
  then have "e < 53" by (intro power_int_le_imp_less_exp [of "2::rat" e 53]) simp_all
  then have e: "e \<le> 52" by simp
  define k where "k = nat (52 - e)"
  have u: "(2::rat) powi (e - 52) = 1 / 2 ^ k"
    using e by (simp add: k_def power_int_def field_simps)
  have "of_int n * 2 ^ k = (of_int (n * 2 ^ k) :: rat)" by simp
  then have r: "round_half_even (of_int n * 2 ^ k) = n * 2 ^ k"
    by (simp only: round_half_even_of_int)
  show ?thesis
    using False by (simp add: float_round_def Let_def u r flip: e_def)
qed

section \<open>The gradient scalar\<close>

text \<open>
  On the rows of the image the two roundings never move the sum across an integer, so
  the float computation of line 19 gives \<open>240 + y div 20\<close>.
\<close>

lemma color_value_exact:
  assumes "0 \<le> y" and "y < 300"
  shows "color_value y = 240 + y div 20"
proof -
  define q where "q = y div 20"
  define r where "r = y mod 20"
  have y: "y = 20 * q + r" by (simp add: q_def r_def)
  have r: "0 \<le> r" "r < 20" by (simp_all add: r_def)
  have q: "0 \<le> q" "q < 15" using assms by (simp_all add: q_def)
  have x: "(of_int (15 * y) / of_int height :: rat) = of_int q + of_int r / 20"
    by (simp add: y height_def field_simps)
  show ?thesis
  proof (cases "r = 0")
    case True
    have "py_truediv (15 * y) height = float_round (of_int q)"
      unfolding py_truediv_def x using True by simp
    also have "\<dots> = of_int q"
      using q by (intro float_round_of_int) simp_all
    finally have "py_truediv (15 * y) height = of_int q" .
    then have "py_float_add 240 (py_truediv (15 * y) height) = float_round (of_int (240 + q))"
      by (simp add: py_float_add_def)
    also have "\<dots> = of_int (240 + q)"
      using q by (intro float_round_of_int) simp_all
    finally show ?thesis using q by (simp add: color_value_def py_int_def flip: q_def)
  next
    case False
    with r have r1: "1 \<le> r" "r \<le> 19" by simp_all
    define x :: rat where "x = of_int q + of_int r / 20"
    have xl: "of_int q + 1 / 20 \<le> x" and xu: "x \<le> of_int q + 19 / 20"
      using r1 by (simp_all add: x_def)
    have xpos: "0 < x" and x15: "x < 15" using xl xu q by simp_all
    define a where "a = float_round x"
    define e1 :: rat where "e1 = 1 / 2 ^ 49"
    define e2 :: rat where "e2 = 1 / 2 ^ 45"
    have e: "0 < e1" "e1 < 1 / 100" "0 < e2" "e2 < 1 / 100"
      by (simp_all add: e1_def e2_def)
    have "\<bar>a - x\<bar> \<le> x / 2 ^ 53" unfolding a_def by (rule float_round_error [OF xpos])
    also have "x / 2 ^ 53 < e1" using x15 by (simp add: e1_def)
    finally have a: "\<bar>a - x\<bar> < e1" .
    define s where "s = float_round (240 + a)"
    have spos: "0 < 240 + a" and s256: "240 + a < 256" using a e xpos x15 by linarith+
    have "\<bar>s - (240 + a)\<bar> \<le> (240 + a) / 2 ^ 53" unfolding s_def by (rule float_round_error [OF spos])
    also have "(240 + a) / 2 ^ 53 < e2" using s256 by (simp add: e2_def)
    finally have s: "\<bar>s - (240 + a)\<bar> < e2" .
    have lo: "of_int (240 + q) \<le> s" and hi: "s < of_int (240 + q) + 1"
      using a s e xl xu by simp_all
    then have "\<lfloor>s\<rfloor> = 240 + q" by (simp add: floor_unique)
    moreover have "0 \<le> s" using lo q by simp
    moreover have "s = py_float_add 240 (py_truediv (15 * y) height)"
      unfolding s_def a_def py_float_add_def py_truediv_def x x_def ..
    ultimately show ?thesis by (simp add: color_value_def py_int_def flip: q_def)
  qed
qed

lemma spec_t_exact:
  assumes "0 \<le> y"
  shows "spec_t y = 240 + y div 20"
proof -
  have "(240 + 15 * of_int y / 300 :: rat) = of_int (240 * 20 + y) / of_int 20"
    by (simp add: field_simps)
  then have "\<lfloor>240 + 15 * of_int y / 300 :: rat\<rfloor> = (240 * 20 + y) div 20"
    by (simp only: floor_divide_of_int_eq)
  moreover have "(0::rat) \<le> 240 + 15 * of_int y / 300" using assms by simp
  ultimately show ?thesis by (simp add: spec_t_def py_int_def)
qed

lemma color_value_spec_t: "0 \<le> y \<Longrightarrow> y < 300 \<Longrightarrow> color_value y = spec_t y"
  by (simp add: color_value_exact spec_t_exact)

lemma color_value_bounds:
  assumes "0 \<le> y" and "y < 300"
  shows "240 \<le> color_value y" and "color_value y \<le> 254"
proof -
  have "0 \<le> y div 20 \<and> y div 20 \<le> 14" using assms by arith
  then show "240 \<le> color_value y" and "color_value y \<le> 254"
    by (simp_all add: color_value_exact [OF assms])
qed

section \<open>The gradient pass\<close>

lemma ops_gradient_rows:
  "ops (gradient_rows ys img) =
     ops img @ map (\<lambda>y. Line (0, y) (width, y) (gradient_color y)) ys"
  by (induction ys arbitrary: img) (simp_all add: draw_line_def)

lemma gradient_rows_fields:
  "mode (gradient_rows ys img) = mode img \<and> img_size (gradient_rows ys img) = img_size img
     \<and> background (gradient_rows ys img) = background img"
  by (induction ys arbitrary: img) (simp_all add: draw_line_def)

lemma ops_gradient_pass:
  "ops (gradient_pass (Image_new m sz c)) =
     map (\<lambda>y. Line (0, y) (width, y) (gradient_color y)) [0..299]"
  by (simp add: gradient_pass_def ops_gradient_rows Image_new_def height_def)

lemma length_gradient_pass: "length (ops (gradient_pass (Image_new m sz c))) = 300"
  by (simp add: ops_gradient_pass)

lemma nth_gradient_pass:
  assumes "0 \<le> y" and "y < 300"
  shows "ops (gradient_pass (Image_new m sz c)) ! nat y
           = Line (0, y) (width, y) (gradient_color y)"
proof -
  have "nat y < length [0..299::int]" using assms by simp
  moreover have "[0..299] ! nat y = y" using assms by (simp add: nth_upto)
  ultimately show ?thesis by (simp add: ops_gradient_pass)
qed

text \<open>
  C2. For every row \<open>y\<close> from 0 to 299 the gradient pass draws, as its call number \<open>y\<close>,
  a line from \<open>(0, y)\<close> to \<open>(500, y)\<close>, which spans the whole row, filled with
  \<open>(t, t + 10, t + 20)\<close>, where \<open>t\<close> is the integer truncation of \<open>240 + 15 * y / 300\<close>.
  The fill is the triple handed to the drawing call.
\<close>

theorem gradient_pass_paints_row:
  assumes "0 \<le> y" and "y < 300"
  shows "ops (gradient_pass (Image_new ''RGB'' (width, height) ''white'')) ! nat y
           = Line (0, y) (500, y) (spec_t y, spec_t y + 10, spec_t y + 20)
         \<and> paints_row (ops (gradient_pass (Image_new ''RGB'' (width, height) ''white'')) ! nat y)
             y (spec_t y, spec_t y + 10, spec_t y + 20)"
  using assms
  by (simp add: nth_gradient_pass gradient_color_def color_value_spec_t paints_row_def width_def)

theorem gradient_pass_paints_row_witness:
  "(0::int) \<le> 150 \<and> (150::int) < 300
   \<and> ops (gradient_pass (Image_new ''RGB'' (width, height) ''white'')) ! nat 150
        = Line (0, 150) (500, 150) (spec_t 150, spec_t 150 + 10, spec_t 150 + 20)
   \<and> paints_row (ops (gradient_pass (Image_new ''RGB'' (width, height) ''white'')) ! nat 150)
        150 (spec_t 150, spec_t 150 + 10, spec_t 150 + 20)"
  using gradient_pass_paints_row [of 150] by (simp add: paints_row_def width_def)

text \<open>
  C3, as the specification states it, fails: on row 0 the third channel value is 260.
\<close>

theorem gradient_channels_counterexample:
  "gradient_color 0 = (240, 250, 260) \<and> \<not> in_240_255 (snd (snd (gradient_color 0)))"
  by (simp add: gradient_color_def color_value_exact in_240_255_def)

text \<open>
  C3, amended. For every row \<open>y\<close> from 0 to 299 the three channel values computed for the
  row are \<open>t\<close>, \<open>t + 10\<close> and \<open>t + 20\<close> with \<open>t\<close> the scalar of line 19; \<open>t\<close> lies in 240 to
  254, \<open>t + 10\<close> in 250 to 264 and \<open>t + 20\<close> in 260 to 274.
\<close>

theorem gradient_channels_ranges:
  assumes "0 \<le> y" and "y < 300"
  shows "gradient_color y = (color_value y, color_value y + 10, color_value y + 20)
         \<and> in_240_255 (color_value y) \<and> color_value y \<le> 254
         \<and> 250 \<le> color_value y + 10 \<and> color_value y + 10 \<le> 264
         \<and> 260 \<le> color_value y + 20 \<and> color_value y + 20 \<le> 274"
  using color_value_bounds [OF assms] by (simp add: gradient_color_def in_240_255_def)

theorem gradient_channels_ranges_witness:
  "(0::int) \<le> 299 \<and> (299::int) < 300
   \<and> gradient_color 299 = (color_value 299, color_value 299 + 10, color_value 299 + 20)
   \<and> in_240_255 (color_value 299) \<and> color_value 299 \<le> 254
   \<and> 250 \<le> color_value 299 + 10 \<and> color_value 299 + 10 \<le> 264
   \<and> 260 \<le> color_value 299 + 20 \<and> color_value 299 + 20 \<le> 274"
  using gradient_channels_ranges [of 299] by simp

text \<open>
  C4. The scalar of line 19 does not decrease from one row to a later one, and on every
  row it lies in 240 to 255.
\<close>

theorem color_value_monotone:
  "(0 \<le> y1 \<and> y1 < y2 \<and> y2 < 300 \<longrightarrow> color_value y1 \<le> color_value y2)
   \<and> (0 \<le> y \<and> y < 300 \<longrightarrow> 240 \<le> color_value y \<and> color_value y \<le> 255)"
proof (intro conjI impI)
  assume a: "0 \<le> y1 \<and> y1 < y2 \<and> y2 < 300"
  then have "y1 div 20 \<le> y2 div 20" by (simp add: zdiv_mono1)
  with a show "color_value y1 \<le> color_value y2" by (simp add: color_value_exact)
next
  assume "0 \<le> y \<and> y < 300"
  then show "240 \<le> color_value y" and "color_value y \<le> 255"
    using color_value_bounds [of y] by simp_all
qed

theorem color_value_monotone_witness:
  "(0::int) \<le> 19 \<and> (19::int) < 20 \<and> (20::int) < 300 \<and> color_value 19 \<le> color_value 20
   \<and> (0::int) \<le> 299 \<and> (299::int) < 300 \<and> 240 \<le> color_value 299 \<and> color_value 299 \<le> 255"
  using color_value_monotone [of 19 20 299] by simp

text \<open>
  C10. On every row the blue value handed to the drawing call, \<open>t + 20\<close>, is at least 260,
  and from row 120 on the green value \<open>t + 10\<close> is above 255 as well: the fill of no
  gradient line is a triple of 8-bit intensities.
\<close>

theorem gradient_fill_exceeds_8bit:
  "(0 \<le> y \<and> y < 300 \<longrightarrow>
      ops (gradient_pass (Image_new ''RGB'' (width, height) ''white'')) ! nat y
        = Line (0, y) (width, y) (gradient_color y)
      \<and> snd (snd (gradient_color y)) = color_value y + 20
      \<and> 260 \<le> color_value y + 20
      \<and> \<not> color_8bit (gradient_color y))
   \<and> (120 \<le> y \<and> y < 300 \<longrightarrow>
      fst (snd (gradient_color y)) = color_value y + 10 \<and> 255 < color_value y + 10)"
proof (intro conjI impI)
  assume a: "0 \<le> y \<and> y < 300"
  then show "ops (gradient_pass (Image_new ''RGB'' (width, height) ''white'')) ! nat y
        = Line (0, y) (width, y) (gradient_color y)"
    by (simp add: nth_gradient_pass)
  from a have b: "240 \<le> color_value y" using color_value_bounds(1) [of y] by simp
  then show "260 \<le> color_value y + 20" by simp
  from b show "\<not> color_8bit (gradient_color y)"
    by (simp add: color_8bit_def channel_8bit_def gradient_color_def)
next
  assume a: "120 \<le> y \<and> y < 300"
  then have "6 \<le> y div 20" by arith
  with a show "255 < color_value y + 10" by (simp add: color_value_exact)
qed (simp_all add: gradient_color_def)

theorem gradient_fill_exceeds_8bit_witness:
  "(0::int) \<le> 120 \<and> (120::int) < 300
   \<and> ops (gradient_pass (Image_new ''RGB'' (width, height) ''white'')) ! nat 120
        = Line (0, 120) (width, 120) (gradient_color 120)
   \<and> snd (snd (gradient_color 120)) = color_value 120 + 20
   \<and> 260 \<le> color_value 120 + 20
   \<and> \<not> color_8bit (gradient_color 120)
   \<and> fst (snd (gradient_color 120)) = color_value 120 + 10 \<and> 255 < color_value 120 + 10"
  using gradient_fill_exceeds_8bit [of 120] by simp

section \<open>Font resolution\<close>

lemma title_font_unfold:
  "title_font h =
     (if font_files h arial 24
      then (Inr (FreeTypeFont arial 24), h\<lparr>font_calls := font_calls h @ [Truetype arial 24]\<rparr>)
      else if font_files h helvetica 24
      then (Inr (FreeTypeFont helvetica 24),
            h\<lparr>font_calls := font_calls h @ [Truetype arial 24, Truetype helvetica 24]\<rparr>)
      else (if default_font h then Inr DefaultFont else Inl FontError,
            h\<lparr>font_calls := font_calls h @ [Truetype arial 24, Truetype helvetica 24, Load_default]\<rparr>))"
  by (simp add: title_font_def ImageFont_truetype_def ImageFont_load_default_def)

lemma small_font_unfold:
  "small_font h =
     (if font_files h arial 16
      then (Inr (FreeTypeFont arial 16), h\<lparr>font_calls := font_calls h @ [Truetype arial 16]\<rparr>)
      else (if default_font h then Inr DefaultFont else Inl FontError,
            h\<lparr>font_calls := font_calls h @ [Truetype arial 16, Load_default]\<rparr>))"
  by (simp add: small_font_def ImageFont_truetype_def ImageFont_load_default_def)

lemma title_font_resolved:
  "fst (title_font h) = (case resolved_title_font h of Some f \<Rightarrow> Inr f | None \<Rightarrow> Inl FontError)"
  by (simp add: title_font_unfold resolved_title_font_def)

lemma small_font_resolved:
  "fst (small_font h) = (case resolved_small_font h of Some f \<Rightarrow> Inr f | None \<Rightarrow> Inl FontError)"
  by (simp add: small_font_unfold resolved_small_font_def)

lemma title_font_host: "\<exists>cs. snd (title_font h) = h\<lparr>font_calls := cs\<rparr>"
  by (simp add: title_font_unfold) blast

lemma small_font_host: "\<exists>cs. snd (small_font h) = h\<lparr>font_calls := cs\<rparr>"
  by (simp add: small_font_unfold) blast

text \<open>
  C1. The title font is resolved by an ordered chain: the first call loads the first
  system font at size 24; only if that fails, a second call loads the second system font
  at size 24; only if that fails too, the default font is loaded. Resolution ends in an
  error exactly when both files fail and the default font fails as well.
\<close>

theorem title_font_chain:
  "title_font h =
     (if font_files h arial 24
      then (Inr (FreeTypeFont arial 24), h\<lparr>font_calls := font_calls h @ [Truetype arial 24]\<rparr>)
      else if font_files h helvetica 24
      then (Inr (FreeTypeFont helvetica 24),
            h\<lparr>font_calls := font_calls h @ [Truetype arial 24, Truetype helvetica 24]\<rparr>)
      else (if default_font h then Inr DefaultFont else Inl FontError,
            h\<lparr>font_calls := font_calls h @ [Truetype arial 24, Truetype helvetica 24, Load_default]\<rparr>))
   \<and> ((\<exists>e. fst (title_font h) = Inl e) \<longleftrightarrow>
        \<not> font_files h arial 24 \<and> \<not> font_files h helvetica 24 \<and> \<not> default_font h)"
  by (simp add: title_font_unfold)

theorem title_font_chain_witness:
  "title_font bare_host =
     (Inr DefaultFont,
      bare_host\<lparr>font_calls := [Truetype arial 24, Truetype helvetica 24, Load_default]\<rparr>)
   \<and> \<not> (\<exists>e. fst (title_font bare_host) = Inl e)"
  using title_font_chain [of bare_host] by (simp add: bare_host_def)

text \<open>
  C7. The subtitle font is resolved by one call that loads the first system font at size
  16 and, if that fails, by loading the default font: no other font file is tried. The
  outcome depends on that file at size 16 and on the default font only; in particular it
  is the same before and after the title font has been resolved.
\<close>

theorem small_font_chain:
  "small_font h =
     (if font_files h arial 16
      then (Inr (FreeTypeFont arial 16), h\<lparr>font_calls := font_calls h @ [Truetype arial 16]\<rparr>)
      else (if default_font h then Inr DefaultFont else Inl FontError,
            h\<lparr>font_calls := font_calls h @ [Truetype arial 16, Load_default]\<rparr>))
   \<and> fst (small_font (snd (title_font h))) = fst (small_font h)
   \<and> (font_files k arial 16 = font_files h arial 16 \<and> default_font k = default_font h
        \<longrightarrow> fst (small_font k) = fst (small_font h))"
  by (simp add: small_font_unfold title_font_unfold)

theorem small_font_chain_witness:
  "small_font bare_host =
     (Inr DefaultFont, bare_host\<lparr>font_calls := [Truetype arial 16, Load_default]\<rparr>)
   \<and> fst (small_font (snd (title_font bare_host))) = fst (small_font bare_host)
   \<and> font_files (bare_host\<lparr>font_files := (\<lambda>p s. p = helvetica)\<rparr>) arial 16
       = font_files bare_host arial 16
   \<and> fst (small_font (bare_host\<lparr>font_files := (\<lambda>p s. p = helvetica)\<rparr>))
       = fst (small_font bare_host)"
  using small_font_chain [of bare_host "bare_host\<lparr>font_files := (\<lambda>p s. p = helvetica)\<rparr>"]
  by (simp add: bare_host_def arial_def helvetica_def)

section \<open>Drawing the texts\<close>

lemma ops_add_title:
  "ops (add_title h f img) =
     (case title_xy (draw_textbbox h (0, 0) title f) of (x, y) \<Rightarrow>
        ops img @ [Text (x + 2, y + 2) title (100, 100, 100) f, Text (x, y) title (50, 50, 50) f])"
  by (simp add: add_title_def draw_text_def split: prod.splits)

lemma ops_add_subtitle:
  "ops (add_subtitle h g img) =
     (case subtitle_xy (draw_textbbox h (0, 0) subtitle g) of (x, y) \<Rightarrow>
        ops img @ [Text (x + 1, y + 1) subtitle (120, 120, 120) g,
                   Text (x, y) subtitle (80, 80, 80) g])"
  by (simp add: add_subtitle_def draw_text_def split: prod.splits)

lemma add_title_fields:
  "mode (add_title h f img) = mode img \<and> img_size (add_title h f img) = img_size img
     \<and> background (add_title h f img) = background img"
  by (simp add: add_title_def draw_text_def split: prod.splits)

lemma add_subtitle_fields:
  "mode (add_subtitle h g img) = mode img \<and> img_size (add_subtitle h g img) = img_size img
     \<and> background (add_subtitle h g img) = background img"
  by (simp add: add_subtitle_def draw_text_def split: prod.splits)

lemma add_title_cong: "text_bbox h = text_bbox k \<Longrightarrow> add_title h f img = add_title k f img"
  by (simp add: add_title_def draw_textbbox_def)

lemma add_subtitle_cong:
  "text_bbox h = text_bbox k \<Longrightarrow> add_subtitle h g img = add_subtitle k g img"
  by (simp add: add_subtitle_def draw_textbbox_def)

lemma composed_cong: "text_bbox h = text_bbox k \<Longrightarrow> composed h f g = composed k f g"
  by (simp add: composed_def add_title_cong [of h k] add_subtitle_cong [of h k])

lemma composed_fields:
  "mode (composed h f g) = ''RGB'' \<and> img_size (composed h f g) = (500, 300)
     \<and> background (composed h f g) = ''white''"
  by (simp add: composed_def add_subtitle_fields add_title_fields gradient_pass_def
      gradient_rows_fields Image_new_def width_def height_def)

lemma ops_composed:
  "ops (composed h f g) =
     map (\<lambda>y. Line (0, y) (width, y) (gradient_color y)) [0..299]
     @ (case title_xy (draw_textbbox h (0, 0) title f) of (x, y) \<Rightarrow>
          [Text (x + 2, y + 2) title (100, 100, 100) f, Text (x, y) title (50, 50, 50) f])
     @ (case subtitle_xy (draw_textbbox h (0, 0) subtitle g) of (x, y) \<Rightarrow>
          [Text (x + 1, y + 1) subtitle (120, 120, 120) g, Text (x, y) subtitle (80, 80, 80) g])"
  by (simp add: composed_def ops_add_subtitle ops_add_title ops_gradient_pass split: prod.splits)

lemma floor_div_toward_zero:
  assumes "0 \<le> n"
  shows "py_int (of_int n / 2) = n div 2"
proof -
  have "\<lfloor>rat_of_int n / rat_of_int 2\<rfloor> = n div 2" by (rule floor_divide_of_int_eq)
  with assms show ?thesis by (simp add: py_int_def)
qed

section \<open>The file system\<close>

lemma dirname_output_path: "os_path_dirname output_path = ''native/resources''"
  by (simp add: os_path_dirname_def output_path_def)

lemma ancestors_resources: "ancestors ''native/resources'' = [''native'', ''native/resources'']"
  by (simp add: ancestors_def)

lemma make_each_fields:
  "make_each ds ok h = (r, k) \<Longrightarrow>
     font_files k = font_files h \<and> default_font k = default_font h \<and> text_bbox k = text_bbox h
     \<and> writable k = writable h \<and> stdout k = stdout h \<and> font_calls k = font_calls h
     \<and> saved k = saved h"
proof (induction ds arbitrary: h)
  case Nil
  then show ?case by simp
next
  case (Cons d ds)
  show ?case
  proof (cases "files h d")
    case None
    with Cons.prems Cons.IH [of "h\<lparr>files := (files h)(d \<mapsto> Dir)\<rparr>"] show ?thesis
      by (auto split: if_splits)
  next
    case (Some n)
    with Cons.prems Cons.IH [of h] show ?thesis
      by (cases n) (auto split: if_splits)
  qed
qed

lemma make_each_dirs:
  "make_each ds True h = (Inr u, k) \<Longrightarrow>
     (\<forall>d\<in>set ds. files k d = Some Dir) \<and> (\<forall>p. files h p = Some Dir \<longrightarrow> files k p = Some Dir)
     \<and> (\<forall>p. p \<notin> set ds \<longrightarrow> files k p = files h p)"
proof (induction ds arbitrary: h)
  case Nil
  then show ?case by simp
next
  case (Cons d ds)
  show ?case
  proof (cases "files h d")
    case None
    with Cons.prems have w: "writable h"
      and m: "make_each ds True (h\<lparr>files := (files h)(d \<mapsto> Dir)\<rparr>) = (Inr u, k)"
      by (auto split: if_splits)
    from Cons.IH [OF m] show ?thesis by (auto split: if_splits)
  next
    case (Some n)
    with Cons.prems have n: "n = Dir" and m: "make_each ds True h = (Inr u, k)"
      by (cases n; simp)+
    from Cons.IH [OF m] Some n show ?thesis by auto
  qed
qed

lemma make_each_existing:
  "\<forall>d\<in>set ds. files h d = Some Dir \<Longrightarrow> make_each ds True h = (Inr (), h)"
  by (induction ds) simp_all

section \<open>A run of the procedure\<close>

lemma resolved_cong:
  "font_files h = font_files k \<Longrightarrow> default_font h = default_font k \<Longrightarrow>
     resolved_title_font h = resolved_title_font k \<and> resolved_small_font h = resolved_small_font k"
  by (simp add: resolved_title_font_def resolved_small_font_def)

text \<open>What a run that returns normally has done.\<close>

lemma create_success:
  assumes "create_dmg_background h = (Inr u, k)"
  shows "\<exists>f g. resolved_title_font h = Some f \<and> resolved_small_font h = Some g
           \<and> saved k = saved h @ [(output_path, Encoded ''PNG'' (composed h f g))]
           \<and> files k output_path = Some (File (Encoded ''PNG'' (composed h f g)))
           \<and> files k ''native'' = Some Dir \<and> files k ''native/resources'' = Some Dir
           \<and> stdout k = stdout h @ [''DMG background image created: native/resources/dmg_background.png'']
           \<and> same_fonts h k \<and> writable k"
proof -
  define img0 where "img0 = gradient_pass (Image_new ''RGB'' (width, height) ''white'')"
  from assms obtain f h1 g h2 u3 h3 u4 h4 where
    t: "title_font h = (Inr f, h1)" and
    s: "small_font h1 = (Inr g, h2)" and
    m: "os_makedirs (os_path_dirname output_path) True h2 = (Inr u3, h3)" and
    w: "image_save (add_subtitle h2 g (add_title h1 f img0)) output_path ''PNG'' h3 = (Inr u4, h4)" and
    p: "print (''DMG background image created: '' @ output_path) h4 = (Inr u, k)"
    unfolding create_dmg_background_def Let_def img0_def
    by (auto split: prod.splits sum.splits)
  from t title_font_host [of h] obtain cs1 where h1: "h1 = h\<lparr>font_calls := cs1\<rparr>" by auto
  from s small_font_host [of h1] obtain cs2 where h2: "h2 = h\<lparr>font_calls := cs2\<rparr>"
    by (auto simp add: h1)
  from t title_font_resolved [of h] have f: "resolved_title_font h = Some f"
    by (simp split: option.splits)
  from s small_font_resolved [of h1] have "resolved_small_font h1 = Some g"
    by (simp split: option.splits)
  then have g: "resolved_small_font h = Some g"
    using resolved_cong [of h1 h] by (simp add: h1)
  have img: "add_subtitle h2 g (add_title h1 f img0) = composed h f g"
    using add_title_cong [of h1 h] add_subtitle_cong [of h2 h]
    by (simp add: composed_def img0_def h1 h2)
  from m have m': "make_each [''native'', ''native/resources''] True h2 = (Inr u3, h3)"
    by (simp add: os_makedirs_def dirname_output_path ancestors_resources)
  note F3 = make_each_fields [OF m'] and D3 = make_each_dirs [OF m']
  from w have wr: "writable h3"
    and h4: "h4 = h3\<lparr>files := (files h3)(output_path \<mapsto> File (Encoded ''PNG'' (composed h f g))),
                     saved := saved h3 @ [(output_path, Encoded ''PNG'' (composed h f g))]\<rparr>"
    by (auto simp add: image_save_def img split: if_splits)
  from p have k: "k = h4\<lparr>stdout := stdout h4 @ [''DMG background image created: '' @ output_path]\<rparr>"
    by (simp add: print_def)
  have "files k ''native'' = Some Dir" and "files k ''native/resources'' = Some Dir"
    using D3 by (simp_all add: k h4 output_path_def)
  moreover have "saved k = saved h @ [(output_path, Encoded ''PNG'' (composed h f g))]"
    using F3 by (simp add: k h4 h2)
  moreover have "files k output_path = Some (File (Encoded ''PNG'' (composed h f g)))"
    by (simp add: k h4)
  moreover have "stdout k = stdout h @ [''DMG background image created: native/resources/dmg_background.png'']"
    using F3 by (simp add: k h4 h2 output_path_def)
  moreover have "same_fonts h k" using F3 by (simp add: same_fonts_def k h4 h2)
  moreover have "writable k" using wr by (simp add: k h4)
  ultimately show ?thesis using f g by blast
qed

text \<open>A run that returned normally can be repeated, and it returns normally again.\<close>

lemma create_again:
  assumes "create_dmg_background h = (Inr u, k)"
  shows "\<exists>k2. create_dmg_background k = (Inr (), k2)"
proof -
  from create_success [OF assms] obtain f g where
    f: "resolved_title_font h = Some f" and g: "resolved_small_font h = Some g" and
    png: "files k output_path = Some (File (Encoded ''PNG'' (composed h f g)))" and
    dirs: "files k ''native'' = Some Dir" "files k ''native/resources'' = Some Dir" and
    same: "same_fonts h k" and wr: "writable k"
    by blast
  from same have fk: "resolved_title_font k = Some f" and gk: "resolved_small_font k = Some g"
    using resolved_cong [of h k] f g by (simp_all add: same_fonts_def)
  obtain h1 where t: "title_font k = (Inr f, h1)"
    using title_font_resolved [of k] fk by (cases "title_font k") simp
  from t title_font_host [of k] obtain cs1 where h1: "h1 = k\<lparr>font_calls := cs1\<rparr>" by auto
  have "resolved_small_font h1 = Some g" using gk resolved_cong [of h1 k] by (simp add: h1)
  then obtain h2 where s: "small_font h1 = (Inr g, h2)"
    using small_font_resolved [of h1] by (cases "small_font h1") simp
  from s small_font_host [of h1] obtain cs2 where h2: "h2 = k\<lparr>font_calls := cs2\<rparr>"
    by (auto simp add: h1)
  have m: "os_makedirs (os_path_dirname output_path) True h2 = (Inr (), h2)"
    using dirs make_each_existing [of "[''native'', ''native/resources'']" h2]
    by (simp add: os_makedirs_def dirname_output_path ancestors_resources h2)
  define img where
    "img = add_subtitle h2 g (add_title h1 f (gradient_pass (Image_new ''RGB'' (width, height) ''white'')))"
  have "\<exists>h4. image_save img output_path ''PNG'' h2 = (Inr (), h4)"
    using dirs png wr by (simp add: image_save_def dirname_output_path h2)
  then obtain h4 where w: "image_save img output_path ''PNG'' h2 = (Inr (), h4)" ..
  have "create_dmg_background k = print (''DMG background image created: '' @ output_path) h4"
    unfolding create_dmg_background_def Let_def by (simp add: t s m w flip: img_def)
  then show ?thesis by (simp add: print_def)
qed

lemma output_path_not_dir: "output_path \<noteq> ''native''" "output_path \<noteq> ''native/resources''"
  by (simp_all add: output_path_def)

lemma bare_host_runs:
  "create_dmg_background bare_host = (Inr (), snd (create_dmg_background bare_host))"
proof -
  have "\<exists>k. create_dmg_background bare_host = (Inr (), k)"
    unfolding create_dmg_background_def Let_def
    by (simp add: title_font_unfold small_font_unfold os_makedirs_def dirname_output_path
        ancestors_resources image_save_def print_def bare_host_def output_path_not_dir)
  then show ?thesis by auto
qed

lemma bare_host_fonts:
  "resolved_title_font bare_host = Some DefaultFont"
  "resolved_small_font bare_host = Some DefaultFont"
  by (simp_all add: resolved_title_font_def resolved_small_font_def bare_host_def)

lemma bare_host_xy:
  "title_xy (draw_textbbox bare_host (0, 0) title DefaultFont) = (223, 129)"
  "subtitle_xy (draw_textbbox bare_host (0, 0) subtitle DefaultFont) = (169, 160)"
  by (simp_all add: title_xy_def subtitle_xy_def draw_textbbox_def bare_host_def title_def
      subtitle_def width_def height_def)

lemma spec_centre_501: "spec_centre 501 = 0"
proof -
  have "\<lceil>- (1 / 2) :: rat\<rceil> = 0" by (rule ceiling_unique) simp_all
  then show ?thesis by (simp add: spec_centre_def py_int_def)
qed

text \<open>
  C5, as the specification states it, fails: for a title measured 501 wide the code draws
  the foreground at \<open>x = -1\<close>, and \<open>(500 - 501) / 2\<close> rounded toward zero is 0.
\<close>

theorem title_centering_counterexample:
  "ops (add_title wide_host (FreeTypeFont arial 24) (Image_new ''RGB'' (width, height) ''white''))
     = [Text (1, 122) title (100, 100, 100) (FreeTypeFont arial 24),
        Text (- 1, 120) title (50, 50, 50) (FreeTypeFont arial 24)]
   \<and> spec_centre 501 = 0"
  by (simp add: ops_add_title title_xy_def draw_textbbox_def wide_host_def Image_new_def
      width_def height_def spec_centre_501)

text \<open>
  C5, amended. For a title whose bounding box has width \<open>w\<close> and height \<open>h\<close>, the title
  is drawn at \<open>x = (500 - w) div 2\<close>, the quotient rounded down, and \<open>y = 300 div 2 - h - 10\<close>;
  for a subtitle whose bounding box has width \<open>w'\<close>, the subtitle is drawn at
  \<open>x = (500 - w') div 2\<close> and \<open>y = 300 div 2 + 10\<close>. Whenever the text is no wider than the
  image, rounding down is rounding toward zero.
\<close>

theorem text_positions:
  assumes "text_bbox h f title = (l, t, r, b)"
    and "text_bbox h g subtitle = (l', t', r', b')"
  shows "last (ops (add_title h f img))
           = Text ((500 - (r - l)) div 2, 300 div 2 - (b - t) - 10) title (50, 50, 50) f
         \<and> last (ops (add_subtitle h g img))
           = Text ((500 - (r' - l')) div 2, 300 div 2 + 10) subtitle (80, 80, 80) g
         \<and> (r - l \<le> 500 \<longrightarrow> (500 - (r - l)) div 2 = spec_centre (r - l))
         \<and> (r' - l' \<le> 500 \<longrightarrow> (500 - (r' - l')) div 2 = spec_centre (r' - l'))"
  using assms floor_div_toward_zero [of "500 - (r - l)"] floor_div_toward_zero [of "500 - (r' - l')"]
  by (simp add: ops_add_title ops_add_subtitle title_xy_def subtitle_xy_def draw_textbbox_def
      width_def height_def spec_centre_def)

theorem text_positions_witness:
  "text_bbox bare_host DefaultFont title = (0, 0, 54, 11)
   \<and> text_bbox bare_host DefaultFont subtitle = (0, 0, 162, 11)
   \<and> last (ops (add_title bare_host DefaultFont (Image_new ''RGB'' (width, height) ''white'')))
       = Text (223, 129) title (50, 50, 50) DefaultFont
   \<and> last (ops (add_subtitle bare_host DefaultFont (Image_new ''RGB'' (width, height) ''white'')))
       = Text (169, 160) subtitle (80, 80, 80) DefaultFont
   \<and> spec_centre 54 = 223 \<and> spec_centre 162 = 169"
proof -
  have a: "text_bbox bare_host DefaultFont title = (0, 0, 54, 11)"
    and b: "text_bbox bare_host DefaultFont subtitle = (0, 0, 162, 11)"
    by (simp_all add: bare_host_def title_def subtitle_def)
  from text_positions [OF a b, of "Image_new ''RGB'' (width, height) ''white''"] a b
  show ?thesis by simp
qed

text \<open>
  C6. In the image a run saves, the drawing calls after the 300 gradient lines are, in
  this order: the title shadow at \<open>(x + 2, y + 2)\<close> in \<open>(100, 100, 100)\<close>, the title at
  \<open>(x, y)\<close> in \<open>(50, 50, 50)\<close>, the subtitle shadow at \<open>(x' + 1, y' + 1)\<close> in
  \<open>(120, 120, 120)\<close>, and the subtitle at \<open>(x', y')\<close> in \<open>(80, 80, 80)\<close>. Each foreground
  is drawn after its shadow, so the shadow never covers it.
\<close>

theorem shadow_then_foreground:
  assumes "create_dmg_background h = (Inr u, k)"
  shows "\<exists>img f g x y x' y'.
           last (saved k) = (output_path, Encoded ''PNG'' img)
         \<and> resolved_title_font h = Some f \<and> resolved_small_font h = Some g
         \<and> title_xy (draw_textbbox h (0, 0) title f) = (x, y)
         \<and> subtitle_xy (draw_textbbox h (0, 0) subtitle g) = (x', y')
         \<and> length (ops img) = 304
         \<and> drop 300 (ops img) =
             [Text (x + 2, y + 2) title (100, 100, 100) f,
              Text (x, y) title (50, 50, 50) f,
              Text (x' + 1, y' + 1) subtitle (120, 120, 120) g,
              Text (x', y') subtitle (80, 80, 80) g]"
proof -
  from create_success [OF assms] obtain f g where
    f: "resolved_title_font h = Some f" and g: "resolved_small_font h = Some g" and
    s: "saved k = saved h @ [(output_path, Encoded ''PNG'' (composed h f g))]"
    by blast
  obtain x y where t: "title_xy (draw_textbbox h (0, 0) title f) = (x, y)"
    by (cases "title_xy (draw_textbbox h (0, 0) title f)")
  obtain x' y' where t': "subtitle_xy (draw_textbbox h (0, 0) subtitle g) = (x', y')"
    by (cases "subtitle_xy (draw_textbbox h (0, 0) subtitle g)")
  have "length (ops (composed h f g)) = 304"
    and "drop 300 (ops (composed h f g)) =
             [Text (x + 2, y + 2) title (100, 100, 100) f,
              Text (x, y) title (50, 50, 50) f,
              Text (x' + 1, y' + 1) subtitle (120, 120, 120) g,
              Text (x', y') subtitle (80, 80, 80) g]"
    by (simp_all add: ops_composed t t')
  with f g s t t' show ?thesis by simp
qed

theorem shadow_then_foreground_witness:
  "create_dmg_background bare_host = (Inr (), snd (create_dmg_background bare_host))
   \<and> (\<exists>img. last (saved (snd (create_dmg_background bare_host)))
               = (output_path, Encoded ''PNG'' img)
         \<and> drop 300 (ops img) =
             [Text (225, 131) title (100, 100, 100) DefaultFont,
              Text (223, 129) title (50, 50, 50) DefaultFont,
              Text (170, 161) subtitle (120, 120, 120) DefaultFont,
              Text (169, 160) subtitle (80, 80, 80) DefaultFont])"
  using shadow_then_foreground [OF bare_host_runs] bare_host_runs
  by (auto simp add: bare_host_fonts bare_host_xy)

text \<open>
  C8. A run that returns normally has written exactly one file: a PNG of a 500 by 300 RGB
  image at \<open>native/resources/dmg_background.png\<close>, whose directory then exists; and it
  has printed exactly one line, naming that path. A host where no system font loads and
  the default font does gives such a run.
\<close>

theorem successful_run_output:
  assumes "create_dmg_background h = (Inr u, k)"
  shows "\<exists>img. saved k = saved h @ [(''native/resources/dmg_background.png'', Encoded ''PNG'' img)]
         \<and> img_size img = (500, 300) \<and> mode img = ''RGB''
         \<and> files k ''native/resources/dmg_background.png'' = Some (File (Encoded ''PNG'' img))
         \<and> files k ''native/resources'' = Some Dir
         \<and> stdout k = stdout h @
             [''DMG background image created: native/resources/dmg_background.png'']"
  using create_success [OF assms] composed_fields
  by (auto simp add: output_path_def)

theorem successful_run_output_witness:
  "create_dmg_background bare_host = (Inr (), snd (create_dmg_background bare_host))
   \<and> font_files bare_host = (\<lambda>path sz. False)
   \<and> files bare_host ''native/resources'' = None
   \<and> (\<exists>img. saved (snd (create_dmg_background bare_host))
                = [(''native/resources/dmg_background.png'', Encoded ''PNG'' img)]
         \<and> img_size img = (500, 300) \<and> mode img = ''RGB''
         \<and> files (snd (create_dmg_background bare_host)) ''native/resources/dmg_background.png''
             = Some (File (Encoded ''PNG'' img))
         \<and> files (snd (create_dmg_background bare_host)) ''native/resources'' = Some Dir
         \<and> stdout (snd (create_dmg_background bare_host))
             = [''DMG background image created: native/resources/dmg_background.png''])"
  using successful_run_output [OF bare_host_runs] bare_host_runs
  by (simp add: bare_host_def)

text \<open>
  C9. Two runs that return normally on hosts with the same font availability leave the
  same PNG at the output path, whatever the file system and the console were before each
  run. A run leaves the font availability as it found it, so this covers two successive
  runs.
\<close>

theorem same_fonts_same_output:
  assumes "same_fonts h h'"
    and "create_dmg_background h = (Inr u, k)"
    and "create_dmg_background h' = (Inr u', k')"
  shows "(\<exists>img. files k output_path = Some (File (Encoded ''PNG'' img))
            \<and> files k' output_path = Some (File (Encoded ''PNG'' img))
            \<and> last (saved k) = (output_path, Encoded ''PNG'' img)
            \<and> last (saved k') = (output_path, Encoded ''PNG'' img))
         \<and> same_fonts h k"
proof -
  from create_success [OF assms(2)] obtain f g where
    f: "resolved_title_font h = Some f" and g: "resolved_small_font h = Some g" and
    s: "saved k = saved h @ [(output_path, Encoded ''PNG'' (composed h f g))]" and
    p: "files k output_path = Some (File (Encoded ''PNG'' (composed h f g)))" and
    same: "same_fonts h k"
    by blast
  from create_success [OF assms(3)] obtain f' g' where
    f': "resolved_title_font h' = Some f'" and g': "resolved_small_font h' = Some g'" and
    s': "saved k' = saved h' @ [(output_path, Encoded ''PNG'' (composed h' f' g'))]" and
    p': "files k' output_path = Some (File (Encoded ''PNG'' (composed h' f' g')))"
    by blast
  from assms(1) have "f' = f" and "g' = g"
    using resolved_cong [of h h'] f g f' g' by (simp_all add: same_fonts_def)
  moreover from assms(1) have "composed h' f g = composed h f g"
    using composed_cong [of h' h] by (simp add: same_fonts_def)
  ultimately show ?thesis using s p s' p' same by simp
qed

theorem same_fonts_same_output_witness:
  "same_fonts bare_host (snd (create_dmg_background bare_host))
   \<and> create_dmg_background bare_host = (Inr (), snd (create_dmg_background bare_host))
   \<and> create_dmg_background (snd (create_dmg_background bare_host))
       = (Inr (), snd (create_dmg_background (snd (create_dmg_background bare_host))))
   \<and> files bare_host output_path = None
   \<and> files (snd (create_dmg_background bare_host)) output_path
       = files (snd (create_dmg_background (snd (create_dmg_background bare_host)))) output_path"
proof -
  let ?k = "snd (create_dmg_background bare_host)"
  have same: "same_fonts bare_host ?k"
    using create_success [OF bare_host_runs] by blast
  have again: "create_dmg_background ?k = (Inr (), snd (create_dmg_background ?k))"
    using create_again [OF bare_host_runs] by auto
  from same_fonts_same_output [OF same bare_host_runs again] same bare_host_runs again
  show ?thesis by (auto simp add: bare_host_def)
qed

end
